theory Spec2Isabelle
  imports Complex_Main "HOL-Library.Multiset"
begin

section \<open>Closest dates: the joint choice of one scene per year\<close>

text \<open>
  The notebook cell "Closest Dates" walks over \<^verbatim>\<open>itertools.product(*doys)\<close>, where
  \<^verbatim>\<open>doys\<close> holds, for each year, the list of \<^verbatim>\<open>(date, doy)\<close> pairs of that year.
  Day-of-year values are Python integers (unbounded), modelled as \<^typ>\<open>int\<close>.
\<close>

text \<open>
  The ways a cell can fail: the two failures that the specification names for the
  coverage and the selection, Python's \<^verbatim>\<open>NameError\<close> for a name read before any
  assignment, and the \<^verbatim>\<open>ValueError\<close> of xarray's \<^verbatim>\<open>groupby\<close>. The notebooks contain
  no \<^verbatim>\<open>raise\<close> of their own.
\<close>

datatype error = InvalidGrid | NoCandidateForBucket | NameError | ValueError

text \<open>
  \<^verbatim>\<open>min(abs(a-b),abs(a+365-b),abs(b-a),abs(b+365-a))\<close>: Python's \<^verbatim>\<open>min\<close> of four
  arguments, taken left to right.
\<close>

definition pair_distance :: "int \<Rightarrow> int \<Rightarrow> int" where
  "pair_distance a b =
     min (min (min (abs (a - b)) (abs (a + 365 - b))) (abs (b - a))) (abs (b + 365 - a))"

text \<open>
  The circular day-of-year distance in the words of the specification,
  \<^verbatim>\<open>min(|a-b|, 365-|a-b|)\<close>; the code's \<^const>\<open>pair_distance\<close> is compared with it.
\<close>

definition circular_doy_distance :: "int \<Rightarrow> int \<Rightarrow> int" where
  "circular_doy_distance a b = min (abs (a - b)) (365 - abs (a - b))"

text \<open>\<^verbatim>\<open>itertools.combinations(x, 2)\<close>: the pairs at positions \<open>i < j\<close>, in lexicographic order.\<close>

fun combinations2 :: "'a list \<Rightarrow> ('a \<times> 'a) list" where
  "combinations2 [] = []"
| "combinations2 (x # xs) = map (Pair x) xs @ combinations2 xs"

text \<open>
  \<^verbatim>\<open>itertools.product(*doys)\<close>: one element of each list, the rightmost position
  advancing fastest; the product of no list at all is the one empty tuple.
\<close>

fun product :: "'a list list \<Rightarrow> 'a list list" where
  "product [] = [[]]"
| "product (xs # xss) = concat (map (\<lambda>x. map (Cons x) (product xss)) xs)"

text \<open>
  The inner loop: \<^verbatim>\<open>distance = 0\<close>, then \<^verbatim>\<open>distance += min(...)\<close> for each pair
  \<^verbatim>\<open>d1, d2\<close> of the combination, with \<^verbatim>\<open>a = d1[1]\<close> and \<^verbatim>\<open>b = d2[1]\<close>.
\<close>

definition distance :: "('d \<times> int) list \<Rightarrow> int" where
  "distance x =
     fold (\<lambda>(d1, d2) acc. acc + pair_distance (snd d1) (snd d2)) (combinations2 x) 0"


text \<open>
  The state of the outer loop: \<^verbatim>\<open>min_distance\<close>, which starts as \<^verbatim>\<open>np.inf\<close>
  (\<open>None\<close> here), and \<^verbatim>\<open>date_list\<close>, which is unbound until the first assignment
  (\<open>None\<close> here). \<^verbatim>\<open>np.mean(distance)\<close> of a single integer is that integer as a float;
  the totals are far below \<open>2^53\<close>, so the comparison is the one of the integers.
\<close>

record 'd search_state =
  min_distance :: "int option"
  date_list :: "'d list option"

definition below :: "int \<Rightarrow> int option \<Rightarrow> bool" where
  "below d m = (case m of None \<Rightarrow> True | Some v \<Rightarrow> d < v)"

definition search_step :: "('d \<times> int) list \<Rightarrow> 'd search_state \<Rightarrow> 'd search_state" where
  "search_step x s =
     (if below (distance x) (min_distance s)
      then \<lparr>min_distance = Some (distance x), date_list = Some (map fst x)\<rparr>
      else s)"

definition search :: "('d \<times> int) list list \<Rightarrow> 'd search_state" where
  "search doys = fold search_step (product doys) \<lparr>min_distance = None, date_list = None\<rparr>"

text \<open>
  The next cell reads \<^verbatim>\<open>date_list\<close>; when the loop body never ran the name is unbound
  and Python raises \<^verbatim>\<open>NameError\<close>.
\<close>

definition closest_dates :: "('d \<times> int) list list \<Rightarrow> error + 'd list" where
  "closest_dates doys =
     (case date_list (search doys) of None \<Rightarrow> Inl NameError | Some dl \<Rightarrow> Inr dl)"

text \<open>
  The first combination of least cost: position \<open>i\<close> of the
  enumeration \<open>cs\<close> holds a combination whose cost no other combination undercuts, and
  every combination enumerated before it costs strictly more.
\<close>

definition first_minimum :: "('c \<Rightarrow> int) \<Rightarrow> 'c list \<Rightarrow> nat \<Rightarrow> bool" where
  "first_minimum cost cs i \<longleftrightarrow> i < length cs
     \<and> (\<forall>c \<in> set cs. cost (cs ! i) \<le> cost c)
     \<and> (\<forall>c \<in> set (take i cs). cost (cs ! i) < cost c)"

section \<open>Rasters, the validity mask and the coverage fraction\<close>

text \<open>
  A raster sample is a 64-bit float that is either a number or NaN. Numbers are modelled
  as exact rationals and NaN as \<open>None\<close>. A grid is a two-dimensional array with its shape:
  \<open>ny\<close> rows (axis \<^verbatim>\<open>y\<close>) of \<open>nx\<close> samples (axis \<^verbatim>\<open>x\<close>).
\<close>

type_synonym sample = "rat option"

record 'a grid =
  ny :: nat
  nx :: nat
  cells :: "'a list list"

definition wf_grid :: "'a grid \<Rightarrow> bool" where
  "wf_grid g \<longleftrightarrow> length (cells g) = ny g \<and> list_all (\<lambda>row. length row = nx g) (cells g)"

text \<open>
  \<^verbatim>\<open>.where(lambda x: x > 0, other=np.nan)\<close>, with the comment "sentinel-2 uses 0 as
  nodata": a sample is kept where \<^verbatim>\<open>x > 0\<close> holds and becomes NaN elsewhere; the
  comparison is false on NaN.
\<close>

definition where_positive :: "sample \<Rightarrow> sample" where
  "where_positive x = (case x of None \<Rightarrow> None | Some v \<Rightarrow> if 0 < v then Some v else None)"

definition data :: "sample grid \<Rightarrow> sample grid" where
  "data raw = raw\<lparr>cells := map (map where_positive) (cells raw)\<rparr>"

text \<open>\<^verbatim>\<open>.isin([...])\<close>: NaN is equal to no value.\<close>

definition isin :: "sample \<Rightarrow> rat list \<Rightarrow> bool" where
  "isin x vs = (case x of None \<Rightarrow> False | Some v \<Rightarrow> v \<in> set vs)"

text \<open>
  \<^verbatim>\<open>xr.where(scl.isin(excluded), x=0, y=1)\<close>: 0 where the class is one of the excluded
  classes, 1 everywhere else. The notebooks exclude the classes 3, 8 and 9, and apply
  the test to the \<^verbatim>\<open>SCL\<close> band of each scene of \<^verbatim>\<open>data\<close> (one scene for each
  distinct time, \<^verbatim>\<open>data.groupby('time').first(skipna=False)\<close>).
\<close>

definition validity_mask :: "rat list \<Rightarrow> sample grid \<Rightarrow> int grid" where
  "validity_mask excluded scl =
     \<lparr>ny = ny scl, nx = nx scl,
      cells = map (map (\<lambda>c. if isin c excluded then 0 else 1)) (cells scl)\<rparr>"

definition valid :: "sample grid \<Rightarrow> int grid" where
  "valid scl = validity_mask [3, 8, 9] scl"

text \<open>
  The result of numpy's division of an integer array by a Python integer: a float, with
  NaN for \<open>0/0\<close> and an infinity for any other division by zero (numpy warns and
  returns; it raises nothing).
\<close>

datatype float64 = Num rat | NaN | PosInf | NegInf

definition true_divide :: "int \<Rightarrow> int \<Rightarrow> float64" where
  "true_divide n d =
     (if d = 0 then (if n = 0 then NaN else if 0 < n then PosInf else NegInf)
      else Num (of_int n / of_int d))"

text \<open>
  \<^verbatim>\<open>valid.sum(dim=['x','y']) / (data.shape[2] * data.shape[3])\<close>, for one scene. The
  cell contains no \<^verbatim>\<open>raise\<close> and no test of the shape, so the result is always a value.
\<close>

definition pct_valid :: "int grid \<Rightarrow> error + float64" where
  "pct_valid v = Inr (true_divide (sum_list (map sum_list (cells v))) (int (ny v * nx v)))"

text \<open>The number of pixels of a mask that are 1.\<close>

definition count_true :: "int grid \<Rightarrow> nat" where
  "count_true v = length (filter (\<lambda>c. c = 1) (concat (cells v)))"

definition is_mask :: "int grid \<Rightarrow> bool" where
  "is_mask v \<longleftrightarrow> wf_grid v \<and> list_all (list_all (\<lambda>c. c = 0 \<or> c = 1)) (cells v)"

section \<open>From the coverage table to the candidate lists\<close>

text \<open>
  A pandas \<^verbatim>\<open>Timestamp\<close>: calendar date and time of day. The accessors
  \<^verbatim>\<open>.dt.year\<close> and \<^verbatim>\<open>.dt.month\<close> read the fields; \<^verbatim>\<open>.dt.dayofyear\<close> counts the days
  of the Gregorian year up to the date, from 1.
\<close>

record timestamp =
  ts_year :: int
  ts_month :: nat
  ts_day :: nat
  ts_time :: nat

definition is_leap_year :: "int \<Rightarrow> bool" where
  "is_leap_year y \<longleftrightarrow> y mod 4 = 0 \<and> (y mod 100 \<noteq> 0 \<or> y mod 400 = 0)"

definition days_in_month :: "int \<Rightarrow> nat \<Rightarrow> nat" where
  "days_in_month y m =
     (if m = 2 then (if is_leap_year y then 29 else 28)
      else if m = 4 \<or> m = 6 \<or> m = 9 \<or> m = 11 then 30 else 31)"

definition dayofyear :: "timestamp \<Rightarrow> int" where
  "dayofyear t = int (sum_list (map (days_in_month (ts_year t)) [1..<ts_month t]) + ts_day t)"

text \<open>
  \<^verbatim>\<open>clouds = pd.DataFrame({'date':dates,'pct_valid':pct_valid[:]})\<close>: one row per scene,
  modelled as a list of pairs. \<^verbatim>\<open>best\<close> keeps the rows with
  \<^verbatim>\<open>pct_valid > (100-max_cloud_bbox)/100\<close>; a comparison with NaN is false.
\<close>

definition float_gt :: "float64 \<Rightarrow> rat \<Rightarrow> bool" where
  "float_gt x t =
     (case x of Num v \<Rightarrow> t < v | NaN \<Rightarrow> False | PosInf \<Rightarrow> True | NegInf \<Rightarrow> False)"

definition best :: "int \<Rightarrow> (timestamp \<times> float64) list \<Rightarrow> (timestamp \<times> float64) list" where
  "best max_cloud_bbox clouds =
     filter (\<lambda>(d, p). float_gt p ((100 - of_int max_cloud_bbox) / 100)) clouds"

text \<open>
  \<^verbatim>\<open>date_df\<close>: the dates of \<^verbatim>\<open>best\<close> with the columns \<^verbatim>\<open>year\<close>, \<^verbatim>\<open>doy\<close> and
  \<^verbatim>\<open>month\<close> computed from them.
\<close>

record date_row =
  date :: timestamp
  year :: int
  doy :: int
  month :: nat

definition date_df :: "(timestamp \<times> float64) list \<Rightarrow> date_row list" where
  "date_df b =
     map (\<lambda>(d, p). \<lparr>date = d, year = ts_year d, doy = dayofyear d, month = ts_month d\<rparr>) b"

text \<open>\<^verbatim>\<open>summer = date_df.loc[date_df.month.isin(good_months)]\<close>.\<close>

definition summer :: "nat list \<Rightarrow> date_row list \<Rightarrow> date_row list" where
  "summer good_months df = filter (\<lambda>r. month r \<in> set good_months) df"

text \<open>
  \<^verbatim>\<open>doys = [list(zip(x.date,x.doy)) for _,x in summer.groupby('year')]\<close>: pandas yields
  one group for each year that occurs in \<^verbatim>\<open>summer\<close>, the years ascending, the rows of a
  group in their order in \<^verbatim>\<open>summer\<close>.
\<close>

definition doys :: "date_row list \<Rightarrow> (timestamp \<times> int) list list" where
  "doys sm =
     map (\<lambda>y. map (\<lambda>r. (date r, doy r)) (filter (\<lambda>r. year r = y) sm))
       (sort (remdups (map year sm)))"

text \<open>The cells from \<^verbatim>\<open>clouds\<close> to \<^verbatim>\<open>date_list\<close>, one after the other.\<close>

definition select_dates :: "int \<Rightarrow> nat list \<Rightarrow> (timestamp \<times> float64) list \<Rightarrow> error + timestamp list" where
  "select_dates max_cloud_bbox good_months clouds =
     closest_dates (doys (summer good_months (date_df (best max_cloud_bbox clouds))))"

section \<open>The median over time\<close>

text \<open>
  \<^verbatim>\<open>best_dates\<close> is a three-dimensional array with the axes time, y and x: the labels
  of the time axis, the shape of a slice, and one slice for each time. It is the band
  \<^verbatim>\<open>B08\<close> of \<^verbatim>\<open>data\<close> at the dates of \<^verbatim>\<open>best\<close>, after \<^verbatim>\<open>squeeze()\<close>, which
  drops every axis of length one: the band axis always, and the time axis too when
  exactly one scene is selected (see \<open>median\<close> below). A y or x axis of length one is
  dropped as well; that leaves every sample where it is, and the record keeps such an
  axis as a row or a column of length one.
\<close>

record stack =
  time :: "timestamp list"
  sy :: nat
  sx :: nat
  slices :: "sample list list list"

definition wf_stack :: "stack \<Rightarrow> bool" where
  "wf_stack s \<longleftrightarrow> length (slices s) = length (time s)
     \<and> list_all (\<lambda>g. length g = sy s \<and> list_all (\<lambda>row. length row = sx s) g) (slices s)"

text \<open>
  The median that skips NaN (xarray's \<^verbatim>\<open>median\<close> on floats is numpy's
  \<^verbatim>\<open>nanmedian\<close>): the numbers are sorted, the middle one is the result for an odd count,
  the mean of the two middle ones for an even count, and NaN when no number is left.
\<close>

definition finite_samples :: "sample list \<Rightarrow> rat list" where
  "finite_samples xs = map the (filter (\<lambda>x. x \<noteq> None) xs)"

definition nanmedian :: "sample list \<Rightarrow> sample" where
  "nanmedian xs =
     (let vs = sort (finite_samples xs); n = length vs
      in if n = 0 then None
         else if odd n then Some (vs ! (n div 2))
         else Some ((vs ! (n div 2 - 1) + vs ! (n div 2)) / 2))"

text \<open>The reduction of a group of slices along time, pixel by pixel.\<close>

definition median_over_time :: "nat \<Rightarrow> nat \<Rightarrow> sample list list list \<Rightarrow> sample list list" where
  "median_over_time h w gs =
     map (\<lambda>i. map (\<lambda>j. nanmedian (map (\<lambda>g. g ! i ! j) gs)) [0..<w]) [0..<h]"

text \<open>\<^verbatim>\<open>.fillna(0)\<close>, with the value as a parameter.\<close>

definition fillna :: "rat \<Rightarrow> sample list list \<Rightarrow> sample list list" where
  "fillna v g = map (map (\<lambda>x. case x of None \<Rightarrow> Some v | Some u \<Rightarrow> Some u)) g"

text \<open>The slices of the stack whose time label lies in the year \<open>y\<close>, in the order of the stack.\<close>

definition year_group :: "stack \<Rightarrow> int \<Rightarrow> sample list list list" where
  "year_group s y = map snd (filter (\<lambda>(t, g). ts_year t = y) (zip (time s) (slices s)))"

text \<open>
  \<^verbatim>\<open>median = best_dates.groupby('time.year').median().fillna(0)\<close>: one composite for
  each year of the time axis, the years ascending. With exactly one selected scene
  \<^verbatim>\<open>squeeze()\<close> has turned \<^verbatim>\<open>time\<close> into a scalar coordinate, and with no selected
  scene the time axis is empty: in both cases \<^verbatim>\<open>groupby('time.year')\<close> raises
  \<^verbatim>\<open>ValueError\<close> and no composite is produced.
\<close>

definition median :: "stack \<Rightarrow> error + (int \<times> sample list list) list" where
  "median s =
     (if length (time s) < 2 then Inl ValueError
      else Inr (map (\<lambda>y. (y, fillna 0 (median_over_time (sy s) (sx s) (year_group s y))))
                 (sort (remdups (map ts_year (time s))))))"

text \<open>
  The median in the words of the specification, without sorting: \<open>x\<close> is the \<open>k\<close>-th
  order statistic of \<open>vs\<close> (from 0) when at most \<open>k\<close> values are below \<open>x\<close> and more than \<open>k\<close>
  values are at most \<open>x\<close>; the median is the mean of the two middle order statistics, which
  coincide for an odd count.
\<close>

definition is_order_statistic :: "rat list \<Rightarrow> nat \<Rightarrow> rat \<Rightarrow> bool" where
  "is_order_statistic vs k x \<longleftrightarrow> x \<in> set vs
     \<and> length (filter (\<lambda>v. v < x) vs) \<le> k \<and> k < length (filter (\<lambda>v. v \<le> x) vs)"

definition is_median :: "rat list \<Rightarrow> rat \<Rightarrow> bool" where
  "is_median vs m \<longleftrightarrow>
     (\<exists>lo \<in> set vs. \<exists>hi \<in> set vs.
        is_order_statistic vs ((length vs - 1) div 2) lo
        \<and> is_order_statistic vs (length vs div 2) hi
        \<and> m = (lo + hi) / 2)"

text \<open>The samples of the pixel \<open>(i, j)\<close> across the slices of the year \<open>y\<close>.\<close>

definition pixel_series :: "stack \<Rightarrow> int \<Rightarrow> nat \<Rightarrow> nat \<Rightarrow> sample list" where
  "pixel_series s y i j = map (\<lambda>g. g ! i ! j) (year_group s y)"

section \<open>Properties of the pairwise distance\<close>

lemma pair_distance_alt:
  "pair_distance a b = min (abs (a - b)) (min (abs (365 + (a - b))) (abs (365 - (a - b))))"
proof -
  have 1: "abs (b - a) = abs (a - b)" by (rule abs_minus_commute)
  have 2: "a + 365 - b = 365 + (a - b)" by simp
  have 3: "b + 365 - a = 365 - (a - b)" by simp
  show ?thesis unfolding pair_distance_def 1 2 3 by (simp add: min.assoc min.left_commute)
qed

lemma dist_cases:
  fixes d :: int
  shows "abs d \<le> 365 \<Longrightarrow>
    min (abs d) (min (abs (365 + d)) (abs (365 - d))) = min (abs d) (365 - abs d)"
  by (cases "0 \<le> d") (simp_all add: min_def abs_if)

lemma dist_bound:
  fixes d :: int
  shows "abs d \<le> 365 \<Longrightarrow> min (abs d) (365 - abs d) \<le> 182"
  by (simp add: min_def)

lemma pair_distance_circular:
  "abs (a - b) \<le> 365 \<Longrightarrow> pair_distance a b = circular_doy_distance a b"
  unfolding pair_distance_alt circular_doy_distance_def by (rule dist_cases)

lemma pair_distance_commute: "pair_distance a b = pair_distance b a"
proof -
  have 1: "abs (b - a) = abs (a - b)" by (rule abs_minus_commute)
  have 2: "365 + (b - a) = 365 - (a - b)" by simp
  have 3: "365 - (b - a) = 365 + (a - b)" by simp
  show ?thesis unfolding pair_distance_alt 1 2 3 by (simp add: min.commute)
qed

lemma doy_gap:
  fixes a b :: int
  shows "1 \<le> a \<Longrightarrow> a \<le> 366 \<Longrightarrow> 1 \<le> b \<Longrightarrow> b \<le> 366 \<Longrightarrow> abs (a - b) \<le> 365"
  by simp

text \<open>
  Claim C5. For all day-of-year values \<open>a\<close> and \<open>b\<close> between 1 and 366, the distance of
  the code, the least of \<open>|a-b|\<close>, \<open>|a+365-b|\<close>, \<open>|b-a|\<close> and \<open>|b+365-a|\<close>, is the circular
  day-of-year distance of the specification, the lesser of \<open>|a-b|\<close> and \<open>365-|a-b|\<close>.
\<close>

theorem pair_distance_refines_circular:
  assumes "1 \<le> a" "a \<le> 366" "1 \<le> b" "b \<le> 366"
  shows "pair_distance a b = circular_doy_distance a b"
proof -
  from assms have "abs (a - b) \<le> 365" by (rule doy_gap)
  then show ?thesis by (rule pair_distance_circular)
qed

theorem pair_distance_refines_circular_witness:
  "(1::int) \<le> 1 \<and> (1::int) \<le> 366 \<and> (1::int) \<le> 366 \<and> (366::int) \<le> 366
   \<and> pair_distance 1 366 = circular_doy_distance 1 366 \<and> pair_distance 1 366 = 0"
  using pair_distance_refines_circular [of 1 366]
  by (simp add: circular_doy_distance_def)

lemma circular_commute: "circular_doy_distance a b = circular_doy_distance b a"
  unfolding circular_doy_distance_def by (simp only: abs_minus_commute [of a b])

text \<open>
  Claim C6. The circular day-of-year distance is symmetric, \<open>d(a,b) = d(b,a)\<close>, and for
  day-of-year values (1 to 366) it is at most 182, both as the code computes it and as
  the specification writes it.
\<close>

theorem pair_distance_symmetric_bounded:
  assumes "1 \<le> a" "a \<le> 366" "1 \<le> b" "b \<le> 366"
  shows "pair_distance a b = pair_distance b a \<and> pair_distance a b \<le> 182
     \<and> circular_doy_distance a b = circular_doy_distance b a
     \<and> circular_doy_distance a b \<le> 182"
proof (intro conjI)
  show "pair_distance a b = pair_distance b a" by (rule pair_distance_commute)
  from assms have g: "abs (a - b) \<le> 365" by (rule doy_gap)
  then show "pair_distance a b \<le> 182"
    unfolding pair_distance_alt by (simp only: dist_cases dist_bound)
  show "circular_doy_distance a b = circular_doy_distance b a" by (rule circular_commute)
  from g show "circular_doy_distance a b \<le> 182"
    unfolding circular_doy_distance_def by (rule dist_bound)
qed

theorem pair_distance_symmetric_bounded_witness:
  "(1::int) \<le> 10 \<and> (10::int) \<le> 366 \<and> (1::int) \<le> 192 \<and> (192::int) \<le> 366
   \<and> pair_distance 10 192 = pair_distance 192 10 \<and> pair_distance 10 192 \<le> 182
   \<and> pair_distance 10 192 = 182 \<and> circular_doy_distance 10 192 = 182"
  using pair_distance_symmetric_bounded [of 10 192]
  by (simp add: pair_distance_def circular_doy_distance_def)

section \<open>The search over the product\<close>

lemma product_eq_product_lists: "product xss = product_lists xss"
  by (induction xss) simp_all

lemma product_nonempty: "\<forall>l \<in> set xss. l \<noteq> [] \<Longrightarrow> product xss \<noteq> []"
proof (induction xss)
  case Nil
  then show ?case by simp
next
  case (Cons xs xss)
  then obtain x xs' where xs: "xs = x # xs'" by (cases xs) auto
  from Cons have "product xss \<noteq> []" by simp
  then show ?case by (simp add: xs)
qed

lemma product_member:
  assumes "c \<in> set (product xss)"
  shows "length c = length xss \<and> (\<forall>k < length xss. c ! k \<in> set (xss ! k))"
proof -
  from assms have "list_all2 (\<lambda>x ys. x \<in> set ys) c xss"
    by (simp add: product_eq_product_lists product_lists_set)
  then show ?thesis by (simp add: list_all2_conv_all_nth)
qed






lemma first_minimum_snoc_new:
  assumes "first_minimum f cs i" "f c < f (cs ! i)"
  shows "first_minimum f (cs @ [c]) (length cs)"
  using assms unfolding first_minimum_def by (auto simp: nth_append)

lemma first_minimum_snoc_keep:
  assumes "first_minimum f cs i" "\<not> f c < f (cs ! i)"
  shows "first_minimum f (cs @ [c]) i"
  using assms unfolding first_minimum_def by (auto simp: nth_append)

lemma fold_search_step:
  "cs \<noteq> [] \<Longrightarrow> \<exists>i. first_minimum distance cs i \<and>
     fold search_step cs \<lparr>min_distance = None, date_list = None\<rparr>
       = \<lparr>min_distance = Some (distance (cs ! i)), date_list = Some (map fst (cs ! i))\<rparr>"
proof (induction cs rule: rev_induct)
  case Nil
  then show ?case by simp
next
  case (snoc c cs)
  show ?case
  proof (cases "cs = []")
    case True
    then have "first_minimum distance (cs @ [c]) 0" by (simp add: first_minimum_def)
    moreover have "fold search_step (cs @ [c]) \<lparr>min_distance = None, date_list = None\<rparr>
       = \<lparr>min_distance = Some (distance ((cs @ [c]) ! 0)), date_list = Some (map fst ((cs @ [c]) ! 0))\<rparr>"
      using True by (simp add: search_step_def below_def)
    ultimately show ?thesis by blast
  next
    case False
    with snoc.IH obtain i where i: "first_minimum distance cs i"
      and st: "fold search_step cs \<lparr>min_distance = None, date_list = None\<rparr>
       = \<lparr>min_distance = Some (distance (cs ! i)), date_list = Some (map fst (cs ! i))\<rparr>"
      by blast
    from i have il: "i < length cs" by (simp add: first_minimum_def)
    show ?thesis
    proof (cases "distance c < distance (cs ! i)")
      case True
      with i have "first_minimum distance (cs @ [c]) (length cs)"
        by (rule first_minimum_snoc_new)
      moreover have "fold search_step (cs @ [c]) \<lparr>min_distance = None, date_list = None\<rparr>
         = \<lparr>min_distance = Some (distance ((cs @ [c]) ! length cs)),
             date_list = Some (map fst ((cs @ [c]) ! length cs))\<rparr>"
        using True by (simp add: st search_step_def below_def)
      ultimately show ?thesis by blast
    next
      case False
      with i have "first_minimum distance (cs @ [c]) i"
        by (rule first_minimum_snoc_keep)
      moreover have "fold search_step (cs @ [c]) \<lparr>min_distance = None, date_list = None\<rparr>
         = \<lparr>min_distance = Some (distance ((cs @ [c]) ! i)),
             date_list = Some (map fst ((cs @ [c]) ! i))\<rparr>"
        using False il by (simp add: st search_step_def below_def nth_append)
      ultimately show ?thesis by blast
    qed
  qed
qed

lemma search_first_minimum:
  assumes "\<forall>l \<in> set cands. l \<noteq> []"
  shows "\<exists>i. first_minimum distance (product cands) i
     \<and> search cands = \<lparr>min_distance = Some (distance (product cands ! i)),
                       date_list = Some (map fst (product cands ! i))\<rparr>"
  unfolding search_def using product_nonempty [OF assms] by (rule fold_search_step)




text \<open>
  Claim C10. When every per-year candidate list is non-empty, the search returns exactly
  one date for each year, in the order of the years, and the date returned for a year is
  one of the dates of that year's own candidate list.
\<close>

theorem closest_dates_one_per_bucket:
  assumes "\<forall>l \<in> set cands. l \<noteq> []"
  shows "\<exists>dl. closest_dates cands = Inr dl \<and> list_all2 (\<lambda>d l. d \<in> fst ` set l) dl cands"
proof -
  from assms obtain i where i: "first_minimum distance (product cands) i"
    and st: "search cands = \<lparr>min_distance = Some (distance (product cands ! i)),
                       date_list = Some (map fst (product cands ! i))\<rparr>"
    using search_first_minimum by blast
  let ?c = "product cands ! i"
  from i have "i < length (product cands)" by (simp add: first_minimum_def)
  then have "?c \<in> set (product cands)" by simp
  then have len: "length ?c = length cands"
    and mem: "\<forall>k < length cands. ?c ! k \<in> set (cands ! k)"
    by (simp_all add: product_member)
  have "list_all2 (\<lambda>d l. d \<in> fst ` set l) (map fst ?c) cands"
    using len mem by (simp add: list_all2_conv_all_nth)
  moreover have "closest_dates cands = Inr (map fst ?c)"
    by (simp add: closest_dates_def st)
  ultimately show ?thesis by blast
qed

theorem closest_dates_one_per_bucket_witness:
  "list_all (\<lambda>l. l \<noteq> []) [[(1::nat, 300::int), (2, 320)], [(3, 310)], [(4, 280), (5, 315)]]
   \<and> (\<exists>dl. closest_dates [[(1::nat, 300::int), (2, 320)], [(3, 310)], [(4, 280), (5, 315)]] = Inr dl
          \<and> list_all2 (\<lambda>d l. d \<in> fst ` set l) dl
               [[(1::nat, 300::int), (2, 320)], [(3, 310)], [(4, 280), (5, 315)]])"
proof -
  let ?D = "[[(1::nat, 300::int), (2, 320)], [(3, 310)], [(4, 280), (5, 315)]]"
  have h: "\<forall>l \<in> set ?D. l \<noteq> []" by simp
  have l: "list_all (\<lambda>l. l \<noteq> []) ?D" by simp
  from l closest_dates_one_per_bucket [OF h] show ?thesis by (rule conjI)
qed

section \<open>The validity mask\<close>

lemma mask_cell:
  assumes "i < length (cells scl)" "j < length (cells scl ! i)"
  shows "cells (validity_mask excluded scl) ! i ! j = (if isin (cells scl ! i ! j) excluded then 0 else 1)"
  using assms by (simp add: validity_mask_def)

lemma data_cell:
  assumes "i < length (cells raw)" "j < length (cells raw ! i)"
  shows "cells (data raw) ! i ! j = where_positive (cells raw ! i ! j)"
  using assms by (simp add: data_def)

lemma data_shape:
  "length (cells (data raw)) = length (cells raw)"
  "i < length (cells raw) \<Longrightarrow> length (cells (data raw) ! i) = length (cells raw ! i)"
  by (simp_all add: data_def)

lemma isin_where_positive:
  "isin (where_positive x) excluded
     = (case x of None \<Rightarrow> False | Some v \<Rightarrow> 0 < v \<and> v \<in> set excluded)"
  by (simp add: isin_def where_positive_def split: option.splits)

text \<open>
  Claim C2, as the code has it. At every pixel of a classification grid the mask is 0
  exactly where the pixel carries data (a value above the no-data sentinel 0) and its class
  is one of the excluded classes; it is 1 at every other pixel, no-data pixels included.
\<close>

theorem mask_zero_iff_excluded_data:
  assumes "i < length (cells raw)" "j < length (cells raw ! i)"
  shows "cells (validity_mask excluded (data raw)) ! i ! j
      = (case cells raw ! i ! j of
           None \<Rightarrow> 1
         | Some v \<Rightarrow> if 0 < v \<and> v \<in> set excluded then 0 else 1)"
proof -
  from assms have "cells (validity_mask excluded (data raw)) ! i ! j
      = (if isin (cells (data raw) ! i ! j) excluded then 0 else 1)"
    by (intro mask_cell) (simp_all add: data_shape)
  also from assms have "cells (data raw) ! i ! j = where_positive (cells raw ! i ! j)"
    by (rule data_cell)
  finally show ?thesis by (simp add: isin_where_positive split: option.splits)
qed

theorem mask_zero_iff_excluded_data_witness:
  "(0::nat) < length (cells \<lparr>ny = 1, nx = 3, cells = [[Some 0, Some 8, Some 4]]\<rparr>)
   \<and> (1::nat) < length (cells \<lparr>ny = 1, nx = 3, cells = [[Some 0, Some 8, Some 4 :: sample]]\<rparr> ! 0)
   \<and> cells (validity_mask [3, 8, 9] (data \<lparr>ny = 1, nx = 3, cells = [[Some 0, Some 8, Some 4]]\<rparr>)) ! 0 ! 1 = 0"
  using mask_zero_iff_excluded_data [of 0 "\<lparr>ny = 1, nx = 3, cells = [[Some 0, Some 8, Some 4]]\<rparr>" 1 "[3, 8, 9]"]
  by simp

text \<open>
  A pixel that carries the no-data sentinel 0 becomes NaN in \<^verbatim>\<open>data\<close>, NaN is in no
  class list, and the mask is 1 there, next to a cloud pixel (class 8) whose mask is 0.
\<close>

theorem valid_nodata_counterexample:
  "where_positive (Some 0) = None
   \<and> cells (valid (data \<lparr>ny = 1, nx = 2, cells = [[Some 0, Some 8]]\<rparr>)) = [[1, 0]]"
  by (simp add: valid_def validity_mask_def data_def where_positive_def isin_def)

section \<open>The coverage fraction\<close>

lemma sum_list_01:
  "list_all (\<lambda>c. c = 0 \<or> c = (1::int)) row \<Longrightarrow> sum_list row = int (length (filter (\<lambda>c. c = 1) row))"
  by (induction row) auto

lemma sum_list_rows_01:
  "list_all (list_all (\<lambda>c. c = 0 \<or> c = (1::int))) rows
    \<Longrightarrow> sum_list (map sum_list rows) = int (length (filter (\<lambda>c. c = 1) (concat rows)))"
  by (induction rows) (simp_all add: sum_list_01)

lemma length_concat_rows:
  "list_all (\<lambda>row. length row = w) rows \<Longrightarrow> length (concat rows) = length rows * w"
  by (induction rows) simp_all

lemma mask_sum: "is_mask v \<Longrightarrow> sum_list (map sum_list (cells v)) = int (count_true v)"
  by (simp add: is_mask_def count_true_def sum_list_rows_01)

lemma mask_area: "is_mask v \<Longrightarrow> length (concat (cells v)) = ny v * nx v"
proof -
  assume "is_mask v"
  then have "length (cells v) = ny v" "list_all (\<lambda>row. length row = nx v) (cells v)"
    by (simp_all add: is_mask_def wf_grid_def)
  with length_concat_rows [of "nx v" "cells v"] show ?thesis by simp
qed

lemma count_true_le: "is_mask v \<Longrightarrow> count_true v \<le> ny v * nx v"
proof -
  assume "is_mask v"
  then have "length (concat (cells v)) = ny v * nx v"
    by (rule mask_area)
  moreover have "count_true v \<le> length (concat (cells v))"
    unfolding count_true_def by (rule length_filter_le)
  ultimately show ?thesis by simp
qed

lemma filter_all_true: "list_all (list_all P) rows \<Longrightarrow> filter P (concat rows) = concat rows"
  by (induction rows) (simp_all add: list_all_iff)

lemma filter_all_false:
  "list_all (list_all (\<lambda>c. \<not> P c)) rows \<Longrightarrow> filter P (concat rows) = []"
  by (induction rows) (simp_all add: list_all_iff)

lemma all_zero_not_one:
  "list_all (list_all (\<lambda>c. c = (0::int))) rows \<Longrightarrow> list_all (list_all (\<lambda>c. \<not> c = 1)) rows"
  by (induction rows) (auto simp: list_all_iff)

lemma pct_valid_count:
  assumes "is_mask v" "0 < nx v" "0 < ny v"
  shows "pct_valid v = Inr (Num (of_nat (count_true v) / of_nat (nx v * ny v)))"
  using assms by (simp add: pct_valid_def true_divide_def mask_sum mult.commute)

text \<open>
  Claim C8. For every validity mask of positive width and height the coverage fraction is
  the number of pixels that are 1 divided by width times height; it lies between 0 and 1,
  it is exactly 1 for a mask that is 1 everywhere and exactly 0 for a mask that is 0
  everywhere.
\<close>

theorem pct_valid_fraction:
  assumes "is_mask v" "0 < nx v" "0 < ny v"
  shows "pct_valid v = Inr (Num (of_nat (count_true v) / of_nat (nx v * ny v)))
     \<and> (0::rat) \<le> of_nat (count_true v) / of_nat (nx v * ny v)
     \<and> of_nat (count_true v) / of_nat (nx v * ny v) \<le> (1::rat)
     \<and> (list_all (list_all (\<lambda>c. c = 1)) (cells v) \<longrightarrow> pct_valid v = Inr (Num 1))
     \<and> (list_all (list_all (\<lambda>c. c = 0)) (cells v) \<longrightarrow> pct_valid v = Inr (Num 0))"
proof (intro conjI impI)
  show c: "pct_valid v = Inr (Num (of_nat (count_true v) / of_nat (nx v * ny v)))"
    using assms by (rule pct_valid_count)
  show "(0::rat) \<le> of_nat (count_true v) / of_nat (nx v * ny v)" by simp
  from assms have pos: "0 < nx v * ny v" by simp
  from count_true_le [OF assms(1)] have "count_true v \<le> nx v * ny v" by (simp add: mult.commute)
  then have "(of_nat (count_true v) :: rat) \<le> of_nat (nx v * ny v)" by (simp only: of_nat_le_iff)
  with pos show "of_nat (count_true v) / of_nat (nx v * ny v) \<le> (1::rat)" by simp
  from assms(1) have len: "length (concat (cells v)) = ny v * nx v"
    by (rule mask_area)
  {
    assume "list_all (list_all (\<lambda>c. c = 1)) (cells v)"
    then have "count_true v = ny v * nx v"
      unfolding count_true_def by (simp only: filter_all_true len)
    with pos show "pct_valid v = Inr (Num 1)" by (simp add: c mult.commute)
  }
  {
    assume "list_all (list_all (\<lambda>c. c = 0)) (cells v)"
    then have "list_all (list_all (\<lambda>c. \<not> c = (1::int))) (cells v)"
      by (rule all_zero_not_one)
    then have "count_true v = 0"
      unfolding count_true_def by (simp only: filter_all_false list.size)
    then show "pct_valid v = Inr (Num 0)" by (simp add: c)
  }
qed

theorem pct_valid_fraction_witness:
  "is_mask \<lparr>ny = 2, nx = 2, cells = [[1, 0], [1, 1]]\<rparr>
   \<and> pct_valid \<lparr>ny = 2, nx = 2, cells = [[1, 0], [1, 1]]\<rparr> = Inr (Num (3 / 4))
   \<and> is_mask \<lparr>ny = 1, nx = 2, cells = [[1, 1]]\<rparr>
   \<and> pct_valid \<lparr>ny = 1, nx = 2, cells = [[1, 1]]\<rparr> = Inr (Num 1)
   \<and> is_mask \<lparr>ny = 1, nx = 2, cells = [[0, 0]]\<rparr>
   \<and> pct_valid \<lparr>ny = 1, nx = 2, cells = [[0, 0]]\<rparr> = Inr (Num 0)"
proof -
  have m1: "is_mask \<lparr>ny = 2, nx = 2, cells = [[1, 0], [1, 1]]\<rparr>"
    and m2: "is_mask \<lparr>ny = 1, nx = 2, cells = [[1, 1]]\<rparr>"
    and m3: "is_mask \<lparr>ny = 1, nx = 2, cells = [[0, 0]]\<rparr>"
    by (simp_all add: is_mask_def wf_grid_def)
  have "pct_valid \<lparr>ny = 2, nx = 2, cells = [[1, 0], [1, 1]]\<rparr> = Inr (Num (3 / 4))"
    using pct_valid_fraction [OF m1] by (simp add: count_true_def)
  moreover have "pct_valid \<lparr>ny = 1, nx = 2, cells = [[1, 1]]\<rparr> = Inr (Num 1)"
    using pct_valid_fraction [OF m2] by (simp add: count_true_def)
  moreover have "pct_valid \<lparr>ny = 1, nx = 2, cells = [[0, 0]]\<rparr> = Inr (Num 0)"
    using pct_valid_fraction [OF m3] by (simp add: count_true_def)
  ultimately show ?thesis using m1 m2 m3 by (intro conjI)
qed

text \<open>
  A mask of height 2 and width 0: the coverage computation returns NaN, the value of
  \<open>0/0\<close>; it does not fail.
\<close>

theorem pct_valid_zero_area_counterexample:
  "wf_grid \<lparr>ny = 2, nx = 0, cells = [[], [] :: int list]\<rparr>
   \<and> pct_valid \<lparr>ny = 2, nx = 0, cells = [[], []]\<rparr> = Inr NaN
   \<and> pct_valid \<lparr>ny = 2, nx = 0, cells = [[], []]\<rparr> \<noteq> Inl InvalidGrid"
  by (simp add: wf_grid_def pct_valid_def true_divide_def)

lemma sum_list_empty_rows:
  "\<forall>row \<in> set rows. row = [] \<Longrightarrow> sum_list (map sum_list rows) = (0::int)"
  by (induction rows) simp_all

lemma zero_area_sum:
  assumes "wf_grid v" "nx v = 0 \<or> ny v = 0"
  shows "sum_list (map sum_list (cells v)) = (0::int)"
proof -
  from assms have "\<forall>row \<in> set (cells v). row = []"
    by (auto simp: wf_grid_def list_all_iff)
  then show ?thesis by (rule sum_list_empty_rows)
qed

text \<open>
  Claim C9, as the code has it. When the width or the height of the mask is zero the
  coverage computation does not fail: it divides the sum 0 by 0 and returns NaN.
\<close>

theorem pct_valid_zero_area:
  assumes "wf_grid v" "nx v = 0 \<or> ny v = 0"
  shows "pct_valid v = Inr NaN"
  using assms zero_area_sum [OF assms] by (auto simp: pct_valid_def true_divide_def)

theorem pct_valid_zero_area_witness:
  "wf_grid \<lparr>ny = 0, nx = 3, cells = [] :: int list list\<rparr>
   \<and> pct_valid \<lparr>ny = 0, nx = 3, cells = []\<rparr> = Inr NaN"
proof -
  have w: "wf_grid \<lparr>ny = 0, nx = 3, cells = [] :: int list list\<rparr>" by (simp add: wf_grid_def)
  from w pct_valid_zero_area [OF w] show ?thesis by simp
qed

section \<open>Years without a candidate\<close>

lemma closest_dates_in_product:
  assumes "\<forall>l \<in> set cands. l \<noteq> []"
  shows "\<exists>c \<in> set (product cands). closest_dates cands = Inr (map fst c)"
proof -
  from search_first_minimum [OF assms]
  obtain i where i: "first_minimum distance (product cands) i"
    and st: "search cands = \<lparr>min_distance = Some (distance (product cands ! i)),
                       date_list = Some (map fst (product cands ! i))\<rparr>"
    by blast
  from i have "product cands ! i \<in> set (product cands)" by (simp add: first_minimum_def)
  moreover have "closest_dates cands = Inr (map fst (product cands ! i))"
    by (simp add: closest_dates_def st)
  ultimately show ?thesis by blast
qed

lemma doys_nonempty: "\<forall>l \<in> set (doys sm). l \<noteq> []"
proof
  fix l assume "l \<in> set (doys sm)"
  then obtain y where y: "y \<in> set (map year sm)"
    and l: "l = map (\<lambda>r. (date r, doy r)) (filter (\<lambda>r. year r = y) sm)"
    by (auto simp: doys_def)
  from y obtain r where "r \<in> set sm" "year r = y" by auto
  then have "r \<in> set (filter (\<lambda>r. year r = y) sm)" by simp
  then have "filter (\<lambda>r. year r = y) sm \<noteq> []" by (metis empty_iff empty_set)
  with l show "l \<noteq> []" by simp
qed

lemma date_df_year: "r \<in> set (date_df b) \<Longrightarrow> year r = ts_year (date r)"
  by (auto simp: date_df_def)

lemma summer_year:
  "r \<in> set (summer gm (date_df b)) \<Longrightarrow> year r = ts_year (date r)"
  by (auto simp: summer_def dest: date_df_year)

lemma doys_years:
  assumes "\<forall>r \<in> set sm. year r = ts_year (date r)"
    and "c \<in> set (product (doys sm))"
  shows "map (\<lambda>p. ts_year (fst p)) c = sort (remdups (map year sm))"
proof -
  let ?ks = "sort (remdups (map year sm))"
  have len: "length (doys sm) = length ?ks" by (simp add: doys_def)
  from assms(2) have lc: "length c = length (doys sm)"
    and mem: "\<forall>k < length (doys sm). c ! k \<in> set (doys sm ! k)"
    by (simp_all add: product_member)
  have "ts_year (fst (c ! k)) = ?ks ! k" if k: "k < length ?ks" for k
  proof -
    from k len mem have "c ! k \<in> set (doys sm ! k)" by simp
    moreover from k have "doys sm ! k
        = map (\<lambda>r. (date r, doy r)) (filter (\<lambda>r. year r = ?ks ! k) sm)"
      by (simp add: doys_def)
    ultimately obtain r where "r \<in> set sm" "year r = ?ks ! k" "c ! k = (date r, doy r)"
      by auto
    with assms(1) show ?thesis by auto
  qed
  with lc len show ?thesis by (intro nth_equalityI) simp_all
qed

text \<open>
  Claim C4, as the code has it. The candidate lists are the groups of the rows that passed
  the coverage and month filters, so a year that lost all its scenes to the filters forms
  no group: the selection does not fail, and it returns exactly one date for each year
  that still has a candidate, the years ascending.
\<close>

theorem select_dates_drops_empty_years:
  "\<exists>dl. select_dates max_cloud_bbox good_months clouds = Inr dl
     \<and> map ts_year dl
        = sort (remdups (map year (summer good_months (date_df (best max_cloud_bbox clouds)))))"
proof -
  let ?sm = "summer good_months (date_df (best max_cloud_bbox clouds))"
  from closest_dates_in_product [OF doys_nonempty, of ?sm]
  obtain c where c: "c \<in> set (product (doys ?sm))"
    and r: "closest_dates (doys ?sm) = Inr (map fst c)"
    by blast
  have "\<forall>r \<in> set ?sm. year r = ts_year (date r)" by (blast intro: summer_year)
  from doys_years [OF this c] have "map ts_year (map fst c) = sort (remdups (map year ?sm))"
    by (simp add: comp_def)
  with r show ?thesis by (simp add: select_dates_def)
qed

theorem select_dates_drops_empty_years_witness:
  "\<exists>dl. select_dates 1 [9, 10, 11, 12]
     [(\<lparr>ts_year = 2016, ts_month = 10, ts_day = 1, ts_time = 0\<rparr>, Num 1),
      (\<lparr>ts_year = 2017, ts_month = 11, ts_day = 5, ts_time = 0\<rparr>, Num (1 / 2)),
      (\<lparr>ts_year = 2018, ts_month = 3, ts_day = 7, ts_time = 0\<rparr>, Num 1),
      (\<lparr>ts_year = 2019, ts_month = 10, ts_day = 9, ts_time = 0\<rparr>, Num 1)] = Inr dl
     \<and> map ts_year dl = [2016, 2019]"
proof -
  let ?clouds = "[(\<lparr>ts_year = 2016, ts_month = 10, ts_day = 1, ts_time = 0\<rparr>, Num 1),
      (\<lparr>ts_year = 2017, ts_month = 11, ts_day = 5, ts_time = 0\<rparr>, Num (1 / 2)),
      (\<lparr>ts_year = 2018, ts_month = 3, ts_day = 7, ts_time = 0\<rparr>, Num 1),
      (\<lparr>ts_year = 2019, ts_month = 10, ts_day = 9, ts_time = 0\<rparr>, Num 1)]"
  have "sort (remdups (map year (summer [9, 10, 11, 12] (date_df (best 1 ?clouds)))))
      = [2016, 2019]"
    by code_simp
  with select_dates_drops_empty_years [of 1 "[9, 10, 11, 12]" ?clouds]
  show ?thesis by (simp only:)
qed

text \<open>
  Two scenes that pass the coverage threshold, one of October 2016 and one of March 2017,
  with the months 9 to 12 allowed: the year 2017 is left without a candidate, and the
  selection returns the date of 2016 alone instead of failing.
\<close>

theorem select_dates_empty_year_counterexample:
  "summer [9, 10, 11, 12] (date_df (best 1
     [(\<lparr>ts_year = 2016, ts_month = 10, ts_day = 1, ts_time = 0\<rparr>, Num 1),
      (\<lparr>ts_year = 2017, ts_month = 3, ts_day = 7, ts_time = 0\<rparr>, Num 1)]))
   = [\<lparr>date = \<lparr>ts_year = 2016, ts_month = 10, ts_day = 1, ts_time = 0\<rparr>,
        year = 2016, doy = 275, month = 10\<rparr>]
   \<and> select_dates 1 [9, 10, 11, 12]
     [(\<lparr>ts_year = 2016, ts_month = 10, ts_day = 1, ts_time = 0\<rparr>, Num 1),
      (\<lparr>ts_year = 2017, ts_month = 3, ts_day = 7, ts_time = 0\<rparr>, Num 1)]
   = Inr [\<lparr>ts_year = 2016, ts_month = 10, ts_day = 1, ts_time = 0\<rparr>]
   \<and> select_dates 1 [9, 10, 11, 12]
     [(\<lparr>ts_year = 2016, ts_month = 10, ts_day = 1, ts_time = 0\<rparr>, Num 1),
      (\<lparr>ts_year = 2017, ts_month = 3, ts_day = 7, ts_time = 0\<rparr>, Num 1)]
   \<noteq> Inl NoCandidateForBucket"
  by code_simp

section \<open>The median does not depend on the order of the samples\<close>









section \<open>The median of equal slices\<close>


lemma median_over_time_cell:
  assumes "i < h" "j < w"
  shows "median_over_time h w gs ! i ! j = nanmedian (map (\<lambda>g. g ! i ! j) gs)"
  using assms by (simp add: median_over_time_def)









section \<open>The composite at a pixel\<close>

lemma sorted_below_count:
  fixes xs :: "rat list"
  assumes "sorted xs" "k < length xs"
  shows "length (filter (\<lambda>v. v < xs ! k) xs) \<le> k"
proof -
  have "\<forall>v \<in> set (drop k xs). \<not> v < xs ! k"
  proof
    fix v assume "v \<in> set (drop k xs)"
    then obtain m where "m < length (drop k xs)" "v = drop k xs ! m"
      by (auto simp: in_set_conv_nth)
    then have "k + m < length xs" "v = xs ! (k + m)" by simp_all
    with assms(1) have "xs ! k \<le> v" by (simp add: sorted_nth_mono)
    then show "\<not> v < xs ! k" by simp
  qed
  then have "filter (\<lambda>v. v < xs ! k) (drop k xs) = []" by (simp add: filter_empty_conv)
  then have "filter (\<lambda>v. v < xs ! k) xs = filter (\<lambda>v. v < xs ! k) (take k xs)"
    by (metis append_Nil2 append_take_drop_id filter_append)
  then have "length (filter (\<lambda>v. v < xs ! k) xs)
      = length (filter (\<lambda>v. v < xs ! k) (take k xs))"
    by (rule arg_cong)
  moreover have "length (filter (\<lambda>v. v < xs ! k) (take k xs)) \<le> length (take k xs)"
    by (rule length_filter_le)
  moreover have "length (take k xs) \<le> k" by simp
  ultimately show ?thesis by linarith
qed

lemma sorted_upto_count:
  fixes xs :: "rat list"
  assumes "sorted xs" "k < length xs"
  shows "k < length (filter (\<lambda>v. v \<le> xs ! k) xs)"
proof -
  have "\<forall>v \<in> set (take (Suc k) xs). v \<le> xs ! k"
  proof
    fix v assume "v \<in> set (take (Suc k) xs)"
    then obtain m where "m < length (take (Suc k) xs)" "v = take (Suc k) xs ! m"
      by (auto simp: in_set_conv_nth)
    then have "m \<le> k" "v = xs ! m" by simp_all
    with assms show "v \<le> xs ! k" by (simp add: sorted_nth_mono)
  qed
  then have "filter (\<lambda>v. v \<le> xs ! k) (take (Suc k) xs) = take (Suc k) xs"
    by (simp only: filter_True)
  moreover have "filter (\<lambda>v. v \<le> xs ! k) xs
      = filter (\<lambda>v. v \<le> xs ! k) (take (Suc k) xs) @ filter (\<lambda>v. v \<le> xs ! k) (drop (Suc k) xs)"
    by (metis append_take_drop_id filter_append)
  ultimately have "length (filter (\<lambda>v. v \<le> xs ! k) xs) \<ge> length (take (Suc k) xs)" by simp
  with assms(2) show ?thesis by simp
qed

lemma length_filter_sort:
  fixes vs :: "rat list"
  shows "length (filter P (sort vs)) = length (filter P vs)"
proof -
  have "mset (filter P (sort vs)) = mset (filter P vs)" by simp
  then show ?thesis by (rule mset_eq_length)
qed

lemma sort_order_statistic:
  assumes "k < length vs"
  shows "is_order_statistic vs k (sort vs ! k)"
proof -
  let ?s = "sort vs"
  from assms have k: "k < length ?s" by simp
  then have "?s ! k \<in> set ?s" by (rule nth_mem)
  then have m: "?s ! k \<in> set vs" by simp
  have "length (filter (\<lambda>v. v < ?s ! k) ?s) \<le> k" using k by (intro sorted_below_count) simp_all
  then have a: "length (filter (\<lambda>v. v < ?s ! k) vs) \<le> k" by (simp only: length_filter_sort)
  have "k < length (filter (\<lambda>v. v \<le> ?s ! k) ?s)" using k by (intro sorted_upto_count) simp_all
  then have b: "k < length (filter (\<lambda>v. v \<le> ?s ! k) vs)" by (simp only: length_filter_sort)
  from m a b show ?thesis by (simp add: is_order_statistic_def)
qed

lemma is_order_statistic_mem: "is_order_statistic vs k x \<Longrightarrow> x \<in> set vs"
  by (simp add: is_order_statistic_def)

lemma nanmedian_is_median:
  assumes "finite_samples xs \<noteq> []"
  shows "\<exists>m. nanmedian xs = Some m \<and> is_median (finite_samples xs) m"
proof -
  let ?vs = "finite_samples xs"
  let ?n = "length ?vs"
  let ?s = "sort ?vs"
  from assms have n: "0 < ?n" by simp
  then have sne: "?s \<noteq> []" by (metis length_sort less_numeral_extra(3) list.size(3))
  from n have "(?n - 1) div 2 < ?n" by linarith
  then have lo: "is_order_statistic ?vs ((?n - 1) div 2) (?s ! ((?n - 1) div 2))"
    by (rule sort_order_statistic)
  from n have hi: "is_order_statistic ?vs (?n div 2) (?s ! (?n div 2))"
    by (intro sort_order_statistic) simp
  from lo hi have med: "is_median ?vs ((?s ! ((?n - 1) div 2) + ?s ! (?n div 2)) / 2)"
    unfolding is_median_def by (blast dest: is_order_statistic_mem)
  show ?thesis
  proof (cases "odd ?n")
    case True
    then have "(?n - 1) div 2 = ?n div 2" by (auto elim: oddE)
    with med have "is_median ?vs (?s ! (?n div 2))" by simp
    moreover from True n sne have "nanmedian xs = Some (?s ! (?n div 2))"
      by (simp add: nanmedian_def Let_def)
    ultimately show ?thesis by blast
  next
    case False
    with n have "(?n - 1) div 2 = ?n div 2 - 1" by (auto elim: evenE)
    with med have "is_median ?vs ((?s ! (?n div 2 - 1) + ?s ! (?n div 2)) / 2)" by simp
    moreover from False n sne
    have "nanmedian xs = Some ((?s ! (?n div 2 - 1) + ?s ! (?n div 2)) / 2)"
      by (simp add: nanmedian_def Let_def)
    ultimately show ?thesis by blast
  qed
qed

lemma nanmedian_no_sample: "finite_samples xs = [] \<Longrightarrow> nanmedian xs = None"
  by (simp add: nanmedian_def)

lemma fillna_cell:
  assumes "i < length g" "j < length (g ! i)"
  shows "fillna v g ! i ! j = (case g ! i ! j of None \<Rightarrow> Some v | Some u \<Rightarrow> Some u)"
  using assms by (simp add: fillna_def)

lemma composite_cell:
  assumes "i < h" "j < w"
  shows "fillna v (median_over_time h w gs) ! i ! j
      = (case nanmedian (map (\<lambda>g. g ! i ! j) gs) of None \<Rightarrow> Some v | Some u \<Rightarrow> Some u)"
proof -
  from assms have "i < length (median_over_time h w gs)"
    "j < length (median_over_time h w gs ! i)"
    by (simp_all add: median_over_time_def)
  then have "fillna v (median_over_time h w gs) ! i ! j
      = (case median_over_time h w gs ! i ! j of None \<Rightarrow> Some v | Some u \<Rightarrow> Some u)"
    by (rule fillna_cell)
  with assms show ?thesis by (simp add: median_over_time_cell)
qed

lemma map_of_keyed:
  "k \<in> set ks \<Longrightarrow> map_of (map (\<lambda>y. (y, f y)) ks) k = Some (f k)"
  by (induction ks) auto

lemma median_lookup:
  assumes "2 \<le> length (time s)" "y \<in> set (map ts_year (time s))"
  shows "\<exists>cs. median s = Inr cs
     \<and> map_of cs y = Some (fillna 0 (median_over_time (sy s) (sx s) (year_group s y)))"
proof -
  let ?cs = "map (\<lambda>y. (y, fillna 0 (median_over_time (sy s) (sx s) (year_group s y))))
                 (sort (remdups (map ts_year (time s))))"
  from assms(1) have "median s = Inr ?cs" by (simp add: median_def)
  moreover from assms(2) have "y \<in> set (sort (remdups (map ts_year (time s))))" by simp
  then have "map_of ?cs y = Some (fillna 0 (median_over_time (sy s) (sx s) (year_group s y)))"
    by (rule map_of_keyed)
  ultimately show ?thesis by blast
qed

text \<open>
  For a stack of two or more scenes the median cell does return the composites: for every
  year of the stack and every pixel, the composite holds the median of the pixel's
  samples of that year that are not NaN (the mean of the two middle order statistics,
  which is the middle sample for an odd count), and the fill value 0 where no such sample
  is left.
\<close>

lemma median_composite_pixel:
  assumes "wf_stack s" "2 \<le> length (time s)" "y \<in> set (map ts_year (time s))"
    "i < sy s" "j < sx s"
  shows "\<exists>cs g. median s = Inr cs \<and> map_of cs y = Some g
     \<and> (if finite_samples (pixel_series s y i j) = [] then g ! i ! j = Some 0
        else \<exists>m. g ! i ! j = Some m \<and> is_median (finite_samples (pixel_series s y i j)) m)"
proof -
  let ?g = "fillna 0 (median_over_time (sy s) (sx s) (year_group s y))"
  let ?xs = "pixel_series s y i j"
  from assms(2,3) obtain cs where l: "median s = Inr cs" "map_of cs y = Some ?g"
    using median_lookup by blast
  from assms(4,5) have c: "?g ! i ! j = (case nanmedian ?xs of None \<Rightarrow> Some 0 | Some u \<Rightarrow> Some u)"
    unfolding pixel_series_def by (rule composite_cell)
  show ?thesis
  proof (cases "finite_samples ?xs = []")
    case True
    then have "nanmedian ?xs = None" by (rule nanmedian_no_sample)
    with c have "?g ! i ! j = Some 0" by simp
    with l True show ?thesis by simp
  next
    case False
    then obtain m where "nanmedian ?xs = Some m" "is_median (finite_samples ?xs) m"
      using nanmedian_is_median by blast
    with c have "?g ! i ! j = Some m \<and> is_median (finite_samples ?xs) m" by simp
    with l False show ?thesis by auto
  qed
qed

text \<open>
  Claim C3. The claim asks, for every stack of selected scenes and every pixel, for the
  median of the pixel's samples that are not NaN, with the fill value where there is
  none. For a selection of exactly one scene the median of each pixel is the sample of
  that scene (0 for NaN), but the median cell produces no composite: \<^verbatim>\<open>squeeze()\<close> has
  dropped the time axis and \<^verbatim>\<open>groupby('time.year')\<close> raises \<^verbatim>\<open>ValueError\<close>.
\<close>

theorem median_single_scene_raises:
  "wf_stack \<lparr>time = [\<lparr>ts_year = 2016, ts_month = 10, ts_day = 1, ts_time = 0\<rparr>],
             sy = 2, sx = 2, slices = [[[Some 1, Some 2], [Some 3, None]]]\<rparr>
   \<and> median \<lparr>time = [\<lparr>ts_year = 2016, ts_month = 10, ts_day = 1, ts_time = 0\<rparr>],
             sy = 2, sx = 2, slices = [[[Some 1, Some 2], [Some 3, None]]]\<rparr>
       = Inl ValueError
   \<and> fillna 0 (median_over_time 2 2 (year_group
         \<lparr>time = [\<lparr>ts_year = 2016, ts_month = 10, ts_day = 1, ts_time = 0\<rparr>],
          sy = 2, sx = 2, slices = [[[Some 1, Some 2], [Some 3, None]]]\<rparr> 2016))
       = [[Some 1, Some 2], [Some 3, Some 0]]"
  by code_simp

end
